theory Spec2Isabelle
  imports Complex_Main "HOL-Library.Word"
begin

section \<open>Numeric domains\<close>

text \<open>
  Counts are \<^verbatim>\<open>size_t\<close>: unsigned and wrapping on overflow and underflow, 64 bits wide
  as on the platforms of the two example programs.
\<close>

type_synonym size_t = "64 word"

text \<open>
  The floating-point numbers of the header (\<^verbatim>\<open>double\<close>, and the representation of a
  \<^verbatim>\<open>std::chrono::duration<double, ...>\<close>) are exact reals here, with one extra value:
  \<open>None\<close> is the result that is no finite number (a division by zero, the square
  root of a negative number: NaN or an infinity for IEEE doubles). Every operation
  passes \<open>None\<close> on.
\<close>

type_synonym scalar = "real option"

definition scalar_minus :: "scalar \<Rightarrow> scalar \<Rightarrow> scalar" where
  "scalar_minus a b =
     (case a of None \<Rightarrow> None
      | Some x \<Rightarrow> (case b of None \<Rightarrow> None | Some y \<Rightarrow> Some (x - y)))"

definition scalar_plus :: "scalar \<Rightarrow> scalar \<Rightarrow> scalar" where
  "scalar_plus a b =
     (case a of None \<Rightarrow> None
      | Some x \<Rightarrow> (case b of None \<Rightarrow> None | Some y \<Rightarrow> Some (x + y)))"

definition scalar_times :: "scalar \<Rightarrow> scalar \<Rightarrow> scalar" where
  "scalar_times a b =
     (case a of None \<Rightarrow> None
      | Some x \<Rightarrow> (case b of None \<Rightarrow> None | Some y \<Rightarrow> Some (x * y)))"

text \<open>Division of a scalar by a count, the count converted to the scalar's type.\<close>

definition scalar_divide :: "scalar \<Rightarrow> size_t \<Rightarrow> scalar" where
  "scalar_divide a n =
     (case a of None \<Rightarrow> None
      | Some x \<Rightarrow> if n = 0 then None else Some (x / real (unat n)))"

text \<open>The C library's \<^verbatim>\<open>::sqrt\<close>: no finite result below zero.\<close>

definition c_sqrt :: "scalar \<Rightarrow> scalar" where
  "c_sqrt a =
     (case a of None \<Rightarrow> None
      | Some x \<Rightarrow> if x < 0 then None else Some (sqrt x))"

text \<open>
  A duration-like wrapper (\<^verbatim>\<open>std::chrono::duration<double, std::nano>\<close> in the chrono
  example): it has subtraction, addition and division by a count, exposes its magnitude
  through \<^verbatim>\<open>count()\<close>, and has neither a product of two durations nor a square root.
\<close>

datatype duration = Duration (count: scalar)

definition duration_minus :: "duration \<Rightarrow> duration \<Rightarrow> duration" where
  "duration_minus a b = Duration (scalar_minus (count a) (count b))"

definition duration_plus :: "duration \<Rightarrow> duration \<Rightarrow> duration" where
  "duration_plus a b = Duration (scalar_plus (count a) (count b))"

definition duration_divide :: "duration \<Rightarrow> size_t \<Rightarrow> duration" where
  "duration_divide a n = Duration (scalar_divide (count a) n)"

section \<open>The detail namespace: multiplication and square root of an Accumulator\<close>

text \<open>
  \<^verbatim>\<open>detail::multiply\<close> and \<^verbatim>\<open>detail::sqrt\<close> each have two overloads; the Accumulator
  type selects one. The first of each pair uses the type's own operator, the second goes
  through \<^verbatim>\<open>count()\<close>.
\<close>

definition multiply_operator :: "scalar \<Rightarrow> scalar \<Rightarrow> scalar" where
  "multiply_operator a1 a2 = scalar_times a1 a2"

definition multiply_count :: "duration \<Rightarrow> duration \<Rightarrow> duration" where
  "multiply_count a1 a2 = Duration (scalar_times (count a1) (count a2))"

definition sqrt_operator :: "scalar \<Rightarrow> scalar" where
  "sqrt_operator a = c_sqrt a"

definition sqrt_count :: "duration \<Rightarrow> scalar" where
  "sqrt_count a = c_sqrt (count a)"

text \<open>
  The template parameter \<^verbatim>\<open>Accumulator\<close> is the dictionary of the operations the header
  applies to it: construction from a number, \<^verbatim>\<open>-\<close>, \<^verbatim>\<open>+=\<close>, \<^verbatim>\<open>/\<close> by a count, and
  the overloads of \<^verbatim>\<open>detail::multiply\<close> and \<^verbatim>\<open>detail::sqrt\<close> that its type selects.
\<close>

record 'a Accumulator =
  acc_construct :: "scalar \<Rightarrow> 'a"
  acc_minus :: "'a \<Rightarrow> 'a \<Rightarrow> 'a"
  acc_plus :: "'a \<Rightarrow> 'a \<Rightarrow> 'a"
  acc_divide :: "'a \<Rightarrow> size_t \<Rightarrow> 'a"
  acc_multiply :: "'a \<Rightarrow> 'a \<Rightarrow> 'a"
  acc_sqrt :: "'a \<Rightarrow> scalar"

definition scalar_Accumulator :: "scalar Accumulator" where
  "scalar_Accumulator =
     \<lparr>acc_construct = (\<lambda>x. x), acc_minus = scalar_minus, acc_plus = scalar_plus,
      acc_divide = scalar_divide, acc_multiply = multiply_operator,
      acc_sqrt = sqrt_operator\<rparr>"

definition duration_Accumulator :: "duration Accumulator" where
  "duration_Accumulator =
     \<lparr>acc_construct = Duration, acc_minus = duration_minus, acc_plus = duration_plus,
      acc_divide = duration_divide, acc_multiply = multiply_count,
      acc_sqrt = sqrt_count\<rparr>"

section \<open>Benchmarker::State\<close>

text \<open>
  The members \<^verbatim>\<open>iterations_\<close>, \<^verbatim>\<open>iteration_\<close>, \<^verbatim>\<open>mean_\<close> and
  \<^verbatim>\<open>squared_differences_\<close>, with a prime for the trailing underscore.
\<close>

record 'a State =
  iterations' :: size_t
  iteration' :: size_t
  mean' :: 'a
  squared_differences' :: 'a

definition State_ctor :: "'a Accumulator \<Rightarrow> size_t \<Rightarrow> 'a State" where
  "State_ctor A n =
     \<lparr>iterations' = n, iteration' = 0, mean' = acc_construct A (Some 0),
      squared_differences' = acc_construct A (Some 0)\<rparr>"

text \<open>\<^verbatim>\<open>State::update\<close>, statement by statement; \<open>d\<close> is the elapsed duration.\<close>

definition update :: "'a Accumulator \<Rightarrow> 'a State \<Rightarrow> real \<Rightarrow> 'a State" where
  "update A s d =
     (let s1 = s\<lparr>iteration' := iteration' s + 1\<rparr>;
          v = acc_construct A (Some d);
          delta = acc_minus A v (mean' s1);
          s2 = s1\<lparr>mean' := acc_plus A (mean' s1) (acc_divide A delta (iteration' s1))\<rparr>;
          delta2 = acc_minus A v (mean' s2)
      in s2\<lparr>squared_differences' :=
              acc_plus A (squared_differences' s2) (acc_multiply A delta delta2)\<rparr>)"

text \<open>\<^verbatim>\<open>State::done\<close>: an unsigned comparison.\<close>

definition State_done :: "'a State \<Rightarrow> bool" where
  "State_done s = (iterations' s \<le> iteration' s)"

text \<open>
  \<^verbatim>\<open>State::report\<close> calls \<^verbatim>\<open>Reporter::report\<close> once; the call is the record of its four
  arguments. The subtraction \<^verbatim>\<open>iterations_ - 1\<close> is one of \<^verbatim>\<open>size_t\<close>.
\<close>

record 'a Report =
  report_name :: string
  report_iterations :: size_t
  report_mean :: 'a
  report_standard_deviation :: 'a

definition report :: "'a Accumulator \<Rightarrow> string \<Rightarrow> 'a State \<Rightarrow> 'a Report" where
  "report A name s =
     \<lparr>report_name = name, report_iterations = iterations' s, report_mean = mean' s,
      report_standard_deviation =
        acc_construct A
          (acc_sqrt A (acc_divide A (squared_differences' s) (iterations' s - 1)))\<rparr>"

section \<open>State::Iterator and the range-for loop\<close>

text \<open>
  An Iterator holds a pointer that is either the address of the one State of the run or
  \<^verbatim>\<open>nullptr\<close>; \<^verbatim>\<open>begin()\<close> gives the first, \<^verbatim>\<open>end()\<close> the second, and \<^verbatim>\<open>!=\<close> compares
  the pointers.
\<close>

datatype Iterator = Iterator_this | Iterator_nullptr

definition State_begin :: Iterator where
  "State_begin = Iterator_this"

definition State_end :: Iterator where
  "State_end = Iterator_nullptr"

definition operator_neq :: "Iterator \<Rightarrow> Iterator \<Rightarrow> bool" where
  "operator_neq b1 b2 = (b1 \<noteq> b2)"

text \<open>
  \<^verbatim>\<open>operator++\<close> reads the State through the pointer, so the source applies it to a
  bound Iterator only; the loop below does the same.
\<close>

definition operator_inc :: "'a State \<Rightarrow> Iterator \<Rightarrow> Iterator" where
  "operator_inc s it = (if State_done s then Iterator_nullptr else it)"

text \<open>
  The Timer is a stream of readings: \<open>clock k\<close> is what the \<open>k\<close>-th call of
  \<^verbatim>\<open>Timer::now()\<close> returns (counting from zero). A run carries the State, the number of
  readings taken so far, and two counters of the IterationTimer objects constructed and
  destroyed.
\<close>

type_synonym clock = "nat \<Rightarrow> real"

record IterationTimer =
  start :: real

record 'a Run =
  state :: "'a State"
  now_calls :: nat
  timers_created :: nat
  timers_released :: nat

text \<open>\<^verbatim>\<open>operator*\<close> constructs an IterationTimer, which reads the clock.\<close>

definition operator_deref :: "clock \<Rightarrow> 'a Run \<Rightarrow> IterationTimer \<times> 'a Run" where
  "operator_deref clock r =
     (\<lparr>start = clock (now_calls r)\<rparr>,
      r\<lparr>now_calls := now_calls r + 1, timers_created := timers_created r + 1\<rparr>)"

text \<open>The destructor reads the clock again and updates the State with the difference.\<close>

definition IterationTimer_dtor ::
  "'a Accumulator \<Rightarrow> clock \<Rightarrow> IterationTimer \<Rightarrow> 'a Run \<Rightarrow> 'a Run" where
  "IterationTimer_dtor A clock timer r =
     (let now = clock (now_calls r)
      in r\<lparr>state := update A (state r) (now - start timer),
            now_calls := now_calls r + 1,
            timers_released := timers_released r + 1\<rparr>)"

text \<open>
  The body of the loop is the user's code. The harness sees of it only the way it leaves
  the scope of the IterationTimer, and the time it took (in the clock's readings). A body
  that throws, or that never ends, is not modelled.
\<close>

datatype exit_path = EndOfBody | Continue | Break | Return

fun leaves_loop :: "exit_path \<Rightarrow> bool" where
  "leaves_loop EndOfBody = False"
| "leaves_loop Continue = False"
| "leaves_loop Break = True"
| "leaves_loop Return = True"

type_synonym body = "nat \<Rightarrow> exit_path"

text \<open>
  One pass: \<^verbatim>\<open>auto _ = *it;\<close>, the body, and the destructor of \<^verbatim>\<open>_\<close> at the end of
  the scope, whichever way the body left it. The IterationTimer that \<^verbatim>\<open>operator*\<close>
  returns is constructed in place as \<^verbatim>\<open>_\<close>: one object for each pass.
\<close>

definition iteration_scope :: "'a Accumulator \<Rightarrow> clock \<Rightarrow> 'a Run \<Rightarrow> 'a Run" where
  "iteration_scope A clock r =
     (let (timer, r1) = operator_deref clock r
      in IterationTimer_dtor A clock timer r1)"

text \<open>
  \<^verbatim>\<open>for (auto _ : s) body\<close>, from the Iterator \<open>it\<close> on: compare with \<^verbatim>\<open>end()\<close>, run
  one pass, then leave (on \<^verbatim>\<open>break\<close> or \<^verbatim>\<open>return\<close>) or increment and repeat. The body
  of pass \<open>k\<close> leaves by \<open>body k\<close>.
\<close>

function range_for ::
  "'a Accumulator \<Rightarrow> clock \<Rightarrow> body \<Rightarrow> Iterator \<Rightarrow> 'a Run \<Rightarrow> 'a Run" where
  "range_for A clock body it r =
     (if operator_neq it State_end then
        (let r' = iteration_scope A clock r
         in if leaves_loop (body (timers_created r)) then r'
            else range_for A clock body (operator_inc (state r') it) r')
      else r)"
  by pat_completeness auto

text \<open>
  The loop ends: a pass increments \<^verbatim>\<open>iteration_\<close>, and the Iterator becomes
  \<^verbatim>\<open>nullptr\<close> as soon as \<^verbatim>\<open>iteration_\<close> has reached \<^verbatim>\<open>iterations_\<close>.
\<close>

termination range_for
proof (relation "measure (\<lambda>(A, clock, body, it, r).
          if it = Iterator_nullptr then 0
          else 1 + (unat (iterations' (state r)) - unat (iteration' (state r) + 1)))")
  show "wf (measure (\<lambda>(A, clock, body, it, r).
          if it = Iterator_nullptr then 0
          else 1 + (unat (iterations' (state r)) - unat (iteration' (state r) + 1))))"
    by simp
next
  fix A :: "'a Accumulator" and clock :: clock and body :: body and it
    and r r' :: "'a Run"
  assume a: "operator_neq it State_end" and r': "r' = iteration_scope A clock r"
  let ?n = "iterations' (state r)" and ?i = "iteration' (state r) + 1"
  have i: "iteration' (state r') = ?i" and n: "iterations' (state r') = ?n"
    by (simp_all add: r' iteration_scope_def operator_deref_def IterationTimer_dtor_def
        update_def Let_def)
  have it: "it = Iterator_this"
    using a by (cases it) (simp_all add: operator_neq_def State_end_def)
  show "((A, clock, body, operator_inc (state r') it, r'), A, clock, body, it, r)
      \<in> measure (\<lambda>(A, clock, body, it, r).
          if it = Iterator_nullptr then 0
          else 1 + (unat (iterations' (state r)) - unat (iteration' (state r) + 1)))"
  proof (cases "State_done (state r')")
    case True
    then show ?thesis by (simp add: operator_inc_def it)
  next
    case False
    then have lt: "unat ?i < unat ?n"
      by (simp add: State_done_def i n word_le_nat_alt)
    have "unat ?n < 2 ^ 64"
      using unsigned_less [of ?n, where ?'a = nat] by simp
    with lt have "unat ?i + 1 < 2 ^ 64" by simp
    moreover have "unat x + 1 < 2 ^ 64 \<Longrightarrow> unat (x + 1) = unat x + 1" for x :: size_t
      by (simp add: unat_word_ariths)
    ultimately have "unat (?i + 1) = unat ?i + 1" by blast
    with lt False show ?thesis by (simp add: operator_inc_def it i n)
  qed
qed

section \<open>Benchmarked functions, the registry and runBenchmarks\<close>

text \<open>
  An \<^verbatim>\<open>EvaluatorFunction\<close> takes the State by reference and runs while the clock is being
  read: the State and the number of readings go in and come out. Only functions that
  return are modelled. The functions of the two example programs are one range-for loop
  over the State each, which is \<open>for_each_iteration\<close>.
\<close>

type_synonym 'a EvaluatorFunction = "'a State \<Rightarrow> nat \<Rightarrow> 'a State \<times> nat"

definition start_run :: "'a State \<Rightarrow> nat \<Rightarrow> 'a Run" where
  "start_run s calls =
     \<lparr>state = s, now_calls = calls, timers_created = 0, timers_released = 0\<rparr>"

definition for_each_iteration ::
  "'a Accumulator \<Rightarrow> clock \<Rightarrow> body \<Rightarrow> 'a EvaluatorFunction" where
  "for_each_iteration A clock body s calls =
     (let r = range_for A clock body State_begin (start_run s calls)
      in (state r, now_calls r))"

record 'a Evaluator =
  name :: string
  func :: "'a EvaluatorFunction"
  iterations :: size_t

record 'a Benchmarker =
  default_iterations' :: size_t
  evaluators :: "'a Evaluator list"

text \<open>The constructor's argument is optional and defaults to 1000.\<close>

definition Benchmarker_ctor :: "size_t option \<Rightarrow> 'a Benchmarker" where
  "Benchmarker_ctor default_iterations =
     \<lparr>default_iterations' = (case default_iterations of None \<Rightarrow> 1000 | Some n \<Rightarrow> n),
      evaluators = []\<rparr>"

text \<open>The two overloads of \<^verbatim>\<open>registerBenchmark\<close>.\<close>

definition registerBenchmark_iterations ::
  "string \<Rightarrow> 'a EvaluatorFunction \<Rightarrow> size_t \<Rightarrow> 'a Benchmarker \<Rightarrow> 'a Benchmarker" where
  "registerBenchmark_iterations nm e n b =
     b\<lparr>evaluators := evaluators b @ [\<lparr>name = nm, func = e, iterations = n\<rparr>]\<rparr>"

definition registerBenchmark ::
  "string \<Rightarrow> 'a EvaluatorFunction \<Rightarrow> 'a Benchmarker \<Rightarrow> 'a Benchmarker" where
  "registerBenchmark nm e b =
     b\<lparr>evaluators :=
         evaluators b @ [\<lparr>name = nm, func = e, iterations = default_iterations' b\<rparr>]\<rparr>"

text \<open>
  The macro \<^verbatim>\<open>EMB_MAKE_BENCHMARK(benchmarker, function, ...)\<close> registers under the
  function's own name, with the iteration count when one is given.
\<close>

definition EMB_MAKE_BENCHMARK ::
  "string \<Rightarrow> 'a EvaluatorFunction \<Rightarrow> size_t option \<Rightarrow> 'a Benchmarker \<Rightarrow> 'a Benchmarker" where
  "EMB_MAKE_BENCHMARK function_name f va_args benchmarker =
     (case va_args of
        None \<Rightarrow> registerBenchmark function_name f benchmarker
      | Some n \<Rightarrow> registerBenchmark_iterations function_name f n benchmarker)"

text \<open>
  What \<^verbatim>\<open>runBenchmarks\<close> acts on: the clock, by the number of readings taken, and the
  Reporter, by the calls it has received, oldest first.
\<close>

record 'a World =
  timer_calls :: nat
  reports :: "'a Report list"

text \<open>The body of the loop of \<^verbatim>\<open>runBenchmarks\<close>, for one Evaluator.\<close>

definition run_evaluator :: "'a Accumulator \<Rightarrow> 'a Evaluator \<Rightarrow> 'a World \<Rightarrow> 'a World" where
  "run_evaluator A e w =
     (let s = State_ctor A (iterations e);
          (s', calls) = func e s (timer_calls w)
      in \<lparr>timer_calls = calls, reports = reports w @ [report A (name e) s']\<rparr>)"

fun for_evaluators :: "'a Accumulator \<Rightarrow> 'a Evaluator list \<Rightarrow> 'a World \<Rightarrow> 'a World" where
  "for_evaluators A [] w = w"
| "for_evaluators A (e # es) w = for_evaluators A es (run_evaluator A e w)"

definition runBenchmarks :: "'a Accumulator \<Rightarrow> 'a Benchmarker \<Rightarrow> 'a World \<Rightarrow> 'a World" where
  "runBenchmarks A b w = for_evaluators A (evaluators b) w"

section \<open>Notions for the statements\<close>

text \<open>
  The elapsed durations of \<open>k\<close> successive passes, the first of which takes reading
  number \<open>c\<close> of the clock: each pass takes two readings.
\<close>

definition samples :: "clock \<Rightarrow> nat \<Rightarrow> nat \<Rightarrow> real list" where
  "samples clock c k = map (\<lambda>j. clock (c + 2 * j + 1) - clock (c + 2 * j)) [0..<k]"

text \<open>
  A registration is a name, a function and perhaps an iteration count; a list of them is
  registered in order. The count the registry then holds for one is the one given, or
  else the harness's default \<open>d\<close>.
\<close>

type_synonym 'a registration = "string \<times> 'a EvaluatorFunction \<times> size_t option"

definition register_all :: "'a registration list \<Rightarrow> 'a Benchmarker \<Rightarrow> 'a Benchmarker" where
  "register_all regs b = foldl (\<lambda>b (nm, f, n). EMB_MAKE_BENCHMARK nm f n b) b regs"

definition registered_iterations :: "size_t \<Rightarrow> 'a registration \<Rightarrow> size_t" where
  "registered_iterations d reg = (case snd (snd reg) of None \<Rightarrow> d | Some n \<Rightarrow> n)"

text \<open>
  The magnitudes of a State, a run and a report whose Accumulator is the duration-like
  wrapper: \<^verbatim>\<open>count()\<close> of each Accumulator, all else unchanged.
\<close>

definition State_count :: "duration State \<Rightarrow> scalar State" where
  "State_count s =
     \<lparr>iterations' = iterations' s, iteration' = iteration' s, mean' = count (mean' s),
      squared_differences' = count (squared_differences' s)\<rparr>"

definition Run_count :: "duration Run \<Rightarrow> scalar Run" where
  "Run_count r =
     \<lparr>state = State_count (state r), now_calls = now_calls r,
      timers_created = timers_created r, timers_released = timers_released r\<rparr>"

definition Report_count :: "duration Report \<Rightarrow> scalar Report" where
  "Report_count r =
     \<lparr>report_name = report_name r, report_iterations = report_iterations r,
      report_mean = count (report_mean r),
      report_standard_deviation = count (report_standard_deviation r)\<rparr>"

declare range_for.simps [simp del]

section \<open>The statistics update\<close>

text \<open>
  C2. One call of \<^verbatim>\<open>update\<close> with the elapsed duration \<open>d\<close>, whose value in the
  Accumulator's domain is \<open>v\<close>, is one step of Welford's algorithm: the count grows by
  one (in \<^verbatim>\<open>size_t\<close>), the mean by \<open>delta / n\<close> for \<open>delta = v - mean\<close> and the new
  count \<open>n\<close>, the sum of squared differences by \<open>delta * delta2\<close> for \<open>delta2\<close> the
  difference of \<open>v\<close> and the new mean; the target count is left as it was, and the
  State has no other member.
\<close>

theorem update_welford_step:
  fixes A :: "'a Accumulator" and s :: "'a State" and d :: real
  defines "v \<equiv> acc_construct A (Some d)"
  defines "n \<equiv> iteration' s + 1"
  defines "delta \<equiv> acc_minus A v (mean' s)"
  defines "new_mean \<equiv> acc_plus A (mean' s) (acc_divide A delta n)"
  defines "delta2 \<equiv> acc_minus A v new_mean"
  shows "update A s d =
           \<lparr>iterations' = iterations' s, iteration' = n, mean' = new_mean,
            squared_differences' =
              acc_plus A (squared_differences' s) (acc_multiply A delta delta2)\<rparr>"
  by (simp add: update_def Let_def v_def n_def delta_def new_mean_def delta2_def)

text \<open>The scalar Accumulator on finite values, while the count does not wrap.\<close>

lemma update_scalar:
  assumes "mean' s = Some m" and "squared_differences' s = Some q"
    and "iteration' s + 1 \<noteq> 0"
  shows "update scalar_Accumulator s d =
           s\<lparr>iteration' := iteration' s + 1,
             mean' := Some (m + (d - m) / real (unat (iteration' s + 1))),
             squared_differences' :=
               Some (q + (d - m) * (d - (m + (d - m) / real (unat (iteration' s + 1)))))\<rparr>"
  using assms
  by (simp add: update_def Let_def scalar_Accumulator_def scalar_minus_def scalar_plus_def
      scalar_divide_def multiply_operator_def scalar_times_def)

lemma update_iteration: "iteration' (update A s d) = iteration' s + 1"
  by (simp add: update_def Let_def)

lemma update_iterations: "iterations' (update A s d) = iterations' s"
  by (simp add: update_def Let_def)

lemma foldl_update_iteration:
  "iteration' (foldl (update A) s ds) = iteration' s + of_nat (length ds)"
  by (induction ds arbitrary: s) (simp_all add: update_iteration)

lemma foldl_update_iterations: "iterations' (foldl (update A) s ds) = iterations' s"
  by (induction ds arbitrary: s) (simp_all add: update_iterations)

lemma unat_of_nat_size_t: "k < 2 ^ 64 \<Longrightarrow> unat (of_nat k :: size_t) = k"
  by (simp add: unat_of_nat)

lemma unat_size_t_less: "unat (n :: size_t) < 2 ^ 64"
  using unsigned_less [of n, where ?'a = nat] by simp

lemma unat_inc: "unat (i :: size_t) < unat (n :: size_t) \<Longrightarrow> unat (i + 1) = unat i + 1"
proof -
  assume "unat i < unat n"
  with unat_size_t_less [of n] have "unat i + 1 < 2 ^ 64" by simp
  then show ?thesis by (simp add: unat_word_ariths)
qed

subsection \<open>Welford's recurrence computes the mean and the sum of squared deviations\<close>

lemma sum_squared_differences:
  "(\<Sum>y\<leftarrow>ds. (y - c)\<^sup>2) =
     (\<Sum>y\<leftarrow>ds. y\<^sup>2) - 2 * c * sum_list ds + real (length ds) * c\<^sup>2"
  by (induction ds) (simp_all add: power2_eq_square algebra_simps)

lemma sum_about_mean:
  assumes "real (length ds) * c = sum_list ds"
  shows "(\<Sum>y\<leftarrow>ds. (y - c)\<^sup>2) = (\<Sum>y\<leftarrow>ds. y\<^sup>2) - real (length ds) * c\<^sup>2"
proof -
  have "(\<Sum>y\<leftarrow>ds. (y - c)\<^sup>2)
          = (\<Sum>y\<leftarrow>ds. y\<^sup>2) - 2 * c * sum_list ds + real (length ds) * c\<^sup>2"
    by (rule sum_squared_differences)
  also have "\<dots> = (\<Sum>y\<leftarrow>ds. y\<^sup>2) - 2 * c * (real (length ds) * c)
                      + real (length ds) * c\<^sup>2"
    by (simp only: assms)
  also have "\<dots> = (\<Sum>y\<leftarrow>ds. y\<^sup>2) - real (length ds) * c\<^sup>2"
    by (simp add: power2_eq_square)
  finally show ?thesis .
qed

lemma welford_algebra:
  fixes K x Q :: real
  assumes "(K + 1) * \<mu>' = K * \<mu> + x"
  shows "(Q - K * \<mu>\<^sup>2) + (x - \<mu>) * (x - \<mu>') = (Q + x\<^sup>2) - (K + 1) * \<mu>'\<^sup>2"
proof -
  have "(K + 1) * \<mu>'\<^sup>2 = (K * \<mu> + x) * \<mu>'"
    by (simp add: power2_eq_square assms [symmetric])
  moreover have "\<mu> * ((K + 1) * \<mu>') = \<mu> * (K * \<mu> + x)"
    by (simp only: assms)
  ultimately show ?thesis
    by (simp add: power2_eq_square algebra_simps)
qed

lemma mean_step:
  fixes K \<mu> x S :: real
  assumes "K * \<mu> = S" and "0 \<le> K"
  shows "\<mu> + (x - \<mu>) / (K + 1) = (S + x) / (K + 1)"
proof -
  have "K + 1 \<noteq> 0" using assms(2) by linarith
  then show ?thesis by (simp add: field_simps assms(1) [symmetric])
qed

lemma welford_invariant:
  assumes "length ds < 2 ^ 64"
  shows "foldl (update scalar_Accumulator) (State_ctor scalar_Accumulator n) ds =
           \<lparr>iterations' = n, iteration' = of_nat (length ds),
            mean' = Some (sum_list ds / real (length ds)),
            squared_differences' =
              Some (\<Sum>y\<leftarrow>ds. (y - sum_list ds / real (length ds))\<^sup>2)\<rparr>"
  using assms
proof (induction ds rule: rev_induct)
  case Nil
  show ?case by (simp add: State_ctor_def scalar_Accumulator_def)
next
  case (snoc x ds)
  let ?k = "length ds" and ?S = "sum_list ds"
  let ?\<mu> = "?S / real ?k" and ?\<mu>' = "(?S + x) / real (Suc ?k)"
  let ?s = "\<lparr>iterations' = n, iteration' = of_nat ?k, mean' = Some ?\<mu>,
            squared_differences' = Some (\<Sum>y\<leftarrow>ds. (y - ?\<mu>)\<^sup>2)\<rparr> :: scalar State"
  have k: "Suc ?k < 2 ^ 64" using snoc.prems by simp
  have IH: "foldl (update scalar_Accumulator) (State_ctor scalar_Accumulator n) ds = ?s"
    using snoc by simp
  have un: "unat (of_nat ?k + 1 :: size_t) = Suc ?k"
    using unat_of_nat_size_t [OF k] by (simp add: add.commute)
  then have nz: "(of_nat ?k + 1 :: size_t) \<noteq> 0"
    by (metis Zero_not_Suc unsigned_0)
  have K\<mu>: "real ?k * ?\<mu> = ?S" by (cases "?k = 0") simp_all
  have mean: "?\<mu> + (x - ?\<mu>) / real (Suc ?k) = ?\<mu>'"
    using mean_step [OF K\<mu>, where x = x] by (simp add: add.commute)
  have eq: "(real ?k + 1) * ?\<mu>' = real ?k * ?\<mu> + x"
    by (simp only: K\<mu>) (simp add: field_simps)
  have M2: "(\<Sum>y\<leftarrow>ds. (y - ?\<mu>)\<^sup>2) + (x - ?\<mu>) * (x - ?\<mu>')
              = (\<Sum>y\<leftarrow>ds @ [x]. (y - ?\<mu>')\<^sup>2)"
  proof -
    let ?Q = "\<Sum>y\<leftarrow>ds. y\<^sup>2"
    have a: "(\<Sum>y\<leftarrow>ds. (y - ?\<mu>)\<^sup>2) = ?Q - real ?k * ?\<mu>\<^sup>2"
      using sum_about_mean [OF K\<mu>] .
    have "real (length (ds @ [x])) * ?\<mu>' = sum_list (ds @ [x])"
      using eq K\<mu> by (simp add: add.commute)
    from sum_about_mean [OF this]
    have b: "(\<Sum>y\<leftarrow>ds @ [x]. (y - ?\<mu>')\<^sup>2) = (?Q + x\<^sup>2) - (real ?k + 1) * ?\<mu>'\<^sup>2"
      by (simp add: add.commute)
    show ?thesis
      unfolding a b by (rule welford_algebra [OF eq])
  qed
  have "foldl (update scalar_Accumulator) (State_ctor scalar_Accumulator n) (ds @ [x])
          = update scalar_Accumulator ?s x"
    by (simp add: IH)
  also have "\<dots> = ?s\<lparr>iteration' := of_nat ?k + 1,
             mean' := Some (?\<mu> + (x - ?\<mu>) / real (unat (of_nat ?k + 1 :: size_t))),
             squared_differences' :=
               Some ((\<Sum>y\<leftarrow>ds. (y - ?\<mu>)\<^sup>2)
                 + (x - ?\<mu>) * (x - (?\<mu> + (x - ?\<mu>) / real (unat (of_nat ?k + 1 :: size_t)))))\<rparr>"
    using update_scalar [of ?s ?\<mu> "\<Sum>y\<leftarrow>ds. (y - ?\<mu>)\<^sup>2" x] nz by simp
  also have "\<dots> = \<lparr>iterations' = n, iteration' = of_nat (length (ds @ [x])),
            mean' = Some (sum_list (ds @ [x]) / real (length (ds @ [x]))),
            squared_differences' =
              Some (\<Sum>y\<leftarrow>ds @ [x].
                      (y - sum_list (ds @ [x]) / real (length (ds @ [x])))\<^sup>2)\<rparr>"
    unfolding un mean M2 by simp
  finally show ?case .
qed

text \<open>
  C1. Feed \<open>n \<ge> 2\<close> elapsed durations \<open>ds\<close>, in order, through \<^verbatim>\<open>update\<close>, starting
  from the State constructed for \<open>n\<close> iterations, with the scalar Accumulator. The mean
  the State then holds, and reports, is the arithmetic mean \<open>\<mu>\<close> of \<open>ds\<close>, and the
  standard deviation it reports is the square root of the sum of the \<open>(y - \<mu>)\<^sup>2\<close>
  divided by \<open>n - 1\<close>. The count \<open>n\<close> is one a \<^verbatim>\<open>size_t\<close> holds.
\<close>

theorem welford_mean_and_standard_deviation:
  fixes ds :: "real list"
  assumes "2 \<le> length ds" and "length ds < 2 ^ 64"
  defines "n \<equiv> length ds"
  defines "\<mu> \<equiv> sum_list ds / real n"
  defines "s \<equiv> foldl (update scalar_Accumulator) (State_ctor scalar_Accumulator (of_nat n)) ds"
  shows "mean' s = Some \<mu>
       \<and> report_mean (report scalar_Accumulator nm s) = Some \<mu>
       \<and> report_standard_deviation (report scalar_Accumulator nm s)
           = Some (sqrt ((\<Sum>y\<leftarrow>ds. (y - \<mu>)\<^sup>2) / real (n - 1)))"
proof -
  have s: "s = \<lparr>iterations' = of_nat n, iteration' = of_nat n, mean' = Some \<mu>,
            squared_differences' = Some (\<Sum>y\<leftarrow>ds. (y - \<mu>)\<^sup>2)\<rparr>"
    unfolding s_def n_def \<mu>_def by (rule welford_invariant [OF assms(2)])
  have n: "unat (of_nat n :: size_t) = n"
    using assms(2) by (simp add: n_def unat_of_nat_size_t)
  have "(of_nat n :: size_t) \<noteq> 0"
    using n assms(1) by (auto simp add: n_def)
  then have n1: "unat (of_nat n - 1 :: size_t) = n - 1"
    by (simp add: unat_minus_one n)
  then have nz: "(of_nat n - 1 :: size_t) \<noteq> 0"
    using assms(1) by (auto simp add: n_def)
  have "0 \<le> (\<Sum>y\<leftarrow>ds. (y - \<mu>)\<^sup>2) / real (n - 1)"
    by (intro divide_nonneg_nonneg sum_list_nonneg) auto
  then show ?thesis
    using nz
    by (simp add: s report_def scalar_Accumulator_def sqrt_operator_def c_sqrt_def
        scalar_divide_def n1)
qed

theorem welford_mean_and_standard_deviation_witness:
  "2 \<le> length [1, 3 :: real] \<and> length [1, 3 :: real] < 2 ^ 64
   \<and> mean' (foldl (update scalar_Accumulator) (State_ctor scalar_Accumulator 2) [1, 3]) = Some 2
   \<and> report_standard_deviation
        (report scalar_Accumulator ''b''
          (foldl (update scalar_Accumulator) (State_ctor scalar_Accumulator 2) [1, 3]))
      = Some (sqrt 2)"
  using welford_mean_and_standard_deviation [of "[1, 3]" "''b''"] by simp

section \<open>The iteration protocol\<close>

lemma iteration_scope_eq:
  "iteration_scope A clock r =
     r\<lparr>state := update A (state r) (clock (now_calls r + 1) - clock (now_calls r)),
       now_calls := now_calls r + 2,
       timers_created := timers_created r + 1,
       timers_released := timers_released r + 1\<rparr>"
  by (simp add: iteration_scope_def operator_deref_def IterationTimer_dtor_def)

lemma samples_Suc:
  "samples clock c (Suc k) = samples clock c k @ [clock (c + 2 * k + 1) - clock (c + 2 * k)]"
  by (simp add: samples_def)

lemma funpow_iteration_scope:
  "(iteration_scope A clock ^^ k) r =
     r\<lparr>state := foldl (update A) (state r) (samples clock (now_calls r) k),
       now_calls := now_calls r + 2 * k,
       timers_created := timers_created r + k,
       timers_released := timers_released r + k\<rparr>"
proof (induction k)
  case 0
  show ?case by (simp add: samples_def)
next
  case (Suc k)
  let ?rk = "r\<lparr>state := foldl (update A) (state r) (samples clock (now_calls r) k),
       now_calls := now_calls r + 2 * k,
       timers_created := timers_created r + k,
       timers_released := timers_released r + k\<rparr>"
  have "(iteration_scope A clock ^^ Suc k) r = iteration_scope A clock ?rk"
    by (simp only: funpow.simps o_apply Suc)
  also have "\<dots> =
      r\<lparr>state := foldl (update A) (state r) (samples clock (now_calls r) (Suc k)),
        now_calls := now_calls r + 2 * Suc k,
        timers_created := timers_created r + Suc k,
        timers_released := timers_released r + Suc k\<rparr>"
    unfolding iteration_scope_eq [of A clock ?rk] by (simp add: samples_Suc)
  finally show ?case .
qed

text \<open>The loop from a bound Iterator: one pass, then the two ways of ending.\<close>

lemma range_for_this:
  "range_for A clock body Iterator_this r =
     (let r' = iteration_scope A clock r
      in if leaves_loop (body (timers_created r)) \<or> State_done (state r') then r'
         else range_for A clock body Iterator_this r')"
  by (subst range_for.simps)
    (simp add: Let_def operator_neq_def State_end_def operator_inc_def
      range_for.simps [of _ _ _ Iterator_nullptr])

lemma range_for_zero:
  assumes "iterations' (state r) = 0"
  shows "range_for A clock body Iterator_this r = iteration_scope A clock r"
  by (subst range_for_this)
    (simp add: Let_def State_done_def iteration_scope_eq update_iterations assms)

text \<open>
  With \<open>m > 0\<close> iterations to go, the loop is some \<open>k\<close> passes, at least one and at most
  \<open>m\<close>, and exactly \<open>m\<close> when the body never leaves the loop.
\<close>

lemma range_for_funpow:
  assumes "unat (iterations' (state r)) - unat (iteration' (state r)) = m" and "0 < m"
  shows "\<exists>k. 1 \<le> k \<and> k \<le> m \<and>
           range_for A clock body Iterator_this r = (iteration_scope A clock ^^ k) r \<and>
           ((\<forall>j. \<not> leaves_loop (body j)) \<longrightarrow> k = m)"
  using assms
proof (induction m arbitrary: r)
  case 0
  then show ?case by simp
next
  case (Suc m)
  let ?r' = "iteration_scope A clock r"
  let ?i = "iteration' (state r)" and ?n = "iterations' (state r)"
  have lt: "unat ?i < unat ?n" using Suc.prems by simp
  have i': "iteration' (state ?r') = ?i + 1" and n': "iterations' (state ?r') = ?n"
    by (simp_all add: iteration_scope_eq update_iteration update_iterations)
  have ui: "unat (?i + 1) = unat ?i + 1" using lt by (rule unat_inc)
  have m: "unat ?n - unat (?i + 1) = m" using Suc.prems ui by simp
  have done_iff: "State_done (state ?r') \<longleftrightarrow> m = 0"
    using m lt ui by (auto simp add: State_done_def i' n' word_le_nat_alt)
  show ?case
  proof (cases "leaves_loop (body (timers_created r)) \<or> m = 0")
    case True
    then have "range_for A clock body Iterator_this r = ?r'"
      by (subst range_for_this) (auto simp add: Let_def done_iff)
    moreover have "(\<forall>j. \<not> leaves_loop (body j)) \<longrightarrow> 1 = Suc m" using True by auto
    ultimately show ?thesis by (intro exI [of _ 1]) simp
  next
    case False
    then have step: "range_for A clock body Iterator_this r
                       = range_for A clock body Iterator_this ?r'"
      by (subst range_for_this) (simp add: Let_def done_iff)
    from False have "0 < m" by simp
    from Suc.IH [of ?r'] m this obtain k where k: "1 \<le> k" "k \<le> m"
      "range_for A clock body Iterator_this ?r' = (iteration_scope A clock ^^ k) ?r'"
      "(\<forall>j. \<not> leaves_loop (body j)) \<longrightarrow> k = m"
      by (auto simp add: i' n')
    show ?thesis
      using k step by (intro exI [of _ "Suc k"]) (simp add: funpow_swap1)
  qed
qed

text \<open>The loop over a newly constructed State.\<close>

lemma range_for_passes:
  "\<exists>k. 1 \<le> k \<and> k \<le> max 1 (unat n) \<and>
       range_for A clock body State_begin (start_run (State_ctor A n) c)
         = (iteration_scope A clock ^^ k) (start_run (State_ctor A n) c) \<and>
       ((\<forall>j. \<not> leaves_loop (body j)) \<longrightarrow> k = max 1 (unat n))"
proof (cases "n = 0")
  case True
  then have "range_for A clock body Iterator_this (start_run (State_ctor A n) c)
               = (iteration_scope A clock ^^ 1) (start_run (State_ctor A n) c)"
    by (simp add: range_for_zero start_run_def State_ctor_def)
  then show ?thesis using True by (intro exI [of _ 1]) (simp add: State_begin_def)
next
  case False
  then have pos: "0 < unat n" by (simp add: unat_gt_0)
  have "unat (iterations' (state (start_run (State_ctor A n) c)))
          - unat (iteration' (state (start_run (State_ctor A n) c))) = unat n"
    by (simp add: start_run_def State_ctor_def)
  from range_for_funpow [OF this pos, of A clock body] pos
  show ?thesis by (auto simp add: State_begin_def max_def)
qed

lemma funpow_start_run:
  "(iteration_scope A clock ^^ k) (start_run s c) =
     \<lparr>state = foldl (update A) s (samples clock c k), now_calls = c + 2 * k,
      timers_created = k, timers_released = k\<rparr>"
  unfolding funpow_iteration_scope by (simp add: start_run_def)

text \<open>
  C9. Dereferencing the Iterator constructs an IterationTimer whose \<open>start\<close> is a reading
  of the clock; its destructor takes a second reading \<open>now\<close> and calls \<^verbatim>\<open>update\<close> once,
  with \<open>now - start\<close>. In a range-for loop over a new State, whatever the ways the body
  leaves its scope (the end of the body, \<^verbatim>\<open>continue\<close>, \<^verbatim>\<open>break\<close>, \<^verbatim>\<open>return\<close>), as
  many timers are destroyed as were constructed, each pass took two readings, the State
  is the one that the elapsed durations of these passes give through \<^verbatim>\<open>update\<close>, in
  order, and the number of updates, which \<^verbatim>\<open>iteration_\<close> counts, is the number of timers
  destroyed.
\<close>

theorem iteration_timer_updates_once:
  fixes A :: "'a Accumulator" and clock :: clock and body :: body and n :: size_t and c :: nat
  defines "r \<equiv> range_for A clock body State_begin (start_run (State_ctor A n) c)"
  shows "operator_deref clock q =
           (\<lparr>start = clock (now_calls q)\<rparr>,
            q\<lparr>now_calls := now_calls q + 1, timers_created := timers_created q + 1\<rparr>)
       \<and> IterationTimer_dtor A clock timer q =
           q\<lparr>state := update A (state q) (clock (now_calls q) - start timer),
             now_calls := now_calls q + 1, timers_released := timers_released q + 1\<rparr>
       \<and> timers_created r = timers_released r
       \<and> now_calls r = c + 2 * timers_released r
       \<and> state r = foldl (update A) (State_ctor A n) (samples clock c (timers_released r))
       \<and> unat (iteration' (state r)) = timers_released r"
proof -
  obtain k where k: "1 \<le> k" "k \<le> max 1 (unat n)"
    "r = (iteration_scope A clock ^^ k) (start_run (State_ctor A n) c)"
    using range_for_passes [of n A clock body c] unfolding r_def by blast
  have r: "r = \<lparr>state = foldl (update A) (State_ctor A n) (samples clock c k),
       now_calls = c + 2 * k, timers_created = k, timers_released = k\<rparr>"
    unfolding k(3) by (rule funpow_start_run)
  from k(2) unat_size_t_less [of n] have "k < 2 ^ 64"
    by (simp add: max_def split: if_splits)
  then have "unat (iteration' (state r)) = timers_released r"
    by (simp add: r foldl_update_iteration State_ctor_def samples_def unat_of_nat_size_t)
  then show ?thesis
    by (simp add: r operator_deref_def IterationTimer_dtor_def)
qed

text \<open>
  C6. The claim fails for zero iterations: \<^verbatim>\<open>begin()\<close> is bound whatever the count,
  and \<^verbatim>\<open>done()\<close> is asked only by \<^verbatim>\<open>operator++\<close>, after the first pass. A State
  constructed for 0 iterations runs the body once and ends with \<^verbatim>\<open>iteration_\<close> = 1,
  above \<^verbatim>\<open>iterations_\<close> = 0.
\<close>

theorem zero_iterations_runs_once:
  fixes A :: "'a Accumulator" and clock :: clock and body :: body and c :: nat
  defines "r \<equiv> range_for A clock body State_begin (start_run (State_ctor A 0) c)"
  shows "timers_created r = 1 \<and> iteration' (state r) = 1 \<and> iterations' (state r) = 0
         \<and> \<not> iteration' (state r) \<le> iterations' (state r)"
proof -
  have "r = iteration_scope A clock (start_run (State_ctor A 0) c)"
    unfolding r_def by (simp add: range_for_zero start_run_def State_ctor_def State_begin_def)
  then show ?thesis
    by (simp add: iteration_scope_eq start_run_def State_ctor_def update_iteration
        update_iterations)
qed

text \<open>
  For every other count \<open>n\<close>, and a body that never leaves the loop, the loop is \<open>n\<close>
  passes; after \<open>k \<le> n\<close> of them \<^verbatim>\<open>iteration_\<close> is \<open>k\<close>, within \<^verbatim>\<open>iterations_\<close>, and
  \<^verbatim>\<open>done()\<close> holds only for \<open>k = n\<close>.
\<close>

lemma range_for_complete:
  fixes A :: "'a Accumulator" and clock :: clock and body :: body and n :: size_t and c :: nat
  assumes "n \<noteq> 0" and "\<forall>j. \<not> leaves_loop (body j)"
  defines "r0 \<equiv> start_run (State_ctor A n) c"
  defines "after \<equiv> \<lambda>k. (iteration_scope A clock ^^ k) r0"
  shows "range_for A clock body State_begin r0 = after (unat n)"
    and "\<forall>k\<le>unat n. unat (iteration' (state (after k))) = k \<and>
           iteration' (state (after k)) \<le> iterations' (state (after k)) \<and>
           (State_done (state (after k)) \<longleftrightarrow> k = unat n)"
proof -
  from assms(1) have pos: "0 < unat n" by (simp add: unat_gt_0)
  from range_for_passes [of n A clock body c] assms(2) pos
  show "range_for A clock body State_begin r0 = after (unat n)"
    by (auto simp add: r0_def after_def max_def)
  show "\<forall>k\<le>unat n. unat (iteration' (state (after k))) = k \<and>
           iteration' (state (after k)) \<le> iterations' (state (after k)) \<and>
           (State_done (state (after k)) \<longleftrightarrow> k = unat n)"
  proof (intro allI impI)
    fix k assume k: "k \<le> unat n"
    then have "k < 2 ^ 64" using unat_size_t_less [of n] by simp
    then have u: "unat (iteration' (state (after k))) = k"
      by (simp add: after_def r0_def funpow_start_run foldl_update_iteration
          State_ctor_def samples_def unat_of_nat_size_t)
    have n: "iterations' (state (after k)) = n"
      by (simp add: after_def r0_def funpow_start_run foldl_update_iterations State_ctor_def)
    show "unat (iteration' (state (after k))) = k \<and>
           iteration' (state (after k)) \<le> iterations' (state (after k)) \<and>
           (State_done (state (after k)) \<longleftrightarrow> k = unat n)"
      using k u by (auto simp add: n State_done_def word_le_nat_alt)
  qed
qed

text \<open>A function that is one complete range-for loop, on a new State.\<close>

lemma for_each_iteration_complete:
  assumes "n \<noteq> 0" and "\<forall>j. \<not> leaves_loop (body j)"
  shows "for_each_iteration A clock body (State_ctor A n) c =
           (foldl (update A) (State_ctor A n) (samples clock c (unat n)), c + 2 * unat n)"
  using range_for_complete(1) [OF assms, of A clock c]
  by (simp add: for_each_iteration_def funpow_start_run)

lemma for_each_iteration_once:
  assumes "n = 0 \<or> n = 1"
  shows "for_each_iteration A clock body (State_ctor A n) c =
           (update A (State_ctor A n) (clock (c + 1) - clock c), c + 2)"
proof -
  from assms have "max 1 (unat n) = 1" by auto
  with range_for_passes [of n A clock body c]
  have "range_for A clock body State_begin (start_run (State_ctor A n) c)
         = (iteration_scope A clock ^^ 1) (start_run (State_ctor A n) c)"
    by (metis le_antisym)
  then show ?thesis
    unfolding for_each_iteration_def funpow_start_run by (simp add: samples_def)
qed

lemma size_t_max: "unat (- 1 :: size_t) = 18446744073709551615"
  by (simp add: unsigned_minus_1_eq_mask mask_eq_exp_minus_1)

lemma range_for_iterations:
  "iterations' (state (range_for A clock body it r)) = iterations' (state r)"
proof (induction A clock body it r rule: range_for.induct)
  case (1 A clock body it r)
  show ?case
    using 1 by (subst range_for.simps) (simp add: Let_def iteration_scope_eq update_iterations)
qed

lemma for_each_iteration_iterations:
  "iterations' (fst (for_each_iteration A clock body s c)) = iterations' s"
  by (simp add: for_each_iteration_def Let_def range_for_iterations start_run_def)

section \<open>Reports of degenerate counts\<close>

text \<open>
  C4, as stated, fails: with 0 iterations and a clock that reads 0, 3, ... the body runs
  once, the mean is 3, and the standard deviation reported is the number 0.
\<close>

theorem zero_iterations_body_runs:
  "timers_created (range_for scalar_Accumulator (\<lambda>k. 3 * real k) (\<lambda>k. EndOfBody) State_begin
      (start_run (State_ctor scalar_Accumulator 0) 0)) = 1
   \<and> mean' (state (range_for scalar_Accumulator (\<lambda>k. 3 * real k) (\<lambda>k. EndOfBody) State_begin
      (start_run (State_ctor scalar_Accumulator 0) 0))) = Some 3
   \<and> report_standard_deviation (report scalar_Accumulator ''b''
       (state (range_for scalar_Accumulator (\<lambda>k. 3 * real k) (\<lambda>k. EndOfBody) State_begin
         (start_run (State_ctor scalar_Accumulator 0) 0)))) = Some 0"
proof -
  have "range_for scalar_Accumulator (\<lambda>k. 3 * real k) (\<lambda>k. EndOfBody) State_begin
          (start_run (State_ctor scalar_Accumulator 0) 0)
        = iteration_scope scalar_Accumulator (\<lambda>k. 3 * real k)
            (start_run (State_ctor scalar_Accumulator 0) 0)"
    unfolding State_begin_def by (rule range_for_zero) (simp add: start_run_def State_ctor_def)
  then show ?thesis
    by (simp add: start_run_def iteration_scope_eq size_t_max
        report_def update_def Let_def State_ctor_def
        scalar_Accumulator_def scalar_minus_def scalar_plus_def scalar_divide_def
        multiply_operator_def scalar_times_def sqrt_operator_def c_sqrt_def)
qed

text \<open>
  C4, amended. The State constructed for 0 iterations starts with mean and sum of squared
  differences 0. Reporting a State of 0 iterations divides by no zero: \<^verbatim>\<open>iterations_ - 1\<close>
  wraps to the largest \<^verbatim>\<open>size_t\<close>, and the standard deviation reported is the square
  root of the sum \<open>q \<ge> 0\<close> of squared differences over that number, an ordinary number,
  next to the count 0 and the mean as held. No value of the report marks missing data.
\<close>

theorem zero_iterations_report:
  assumes "iterations' s = 0" and "squared_differences' s = Some q" and "0 \<le> q"
  shows "mean' (State_ctor scalar_Accumulator 0) = Some 0
       \<and> squared_differences' (State_ctor scalar_Accumulator 0) = Some 0
       \<and> report scalar_Accumulator nm s =
           \<lparr>report_name = nm, report_iterations = 0, report_mean = mean' s,
            report_standard_deviation = Some (sqrt (q / 18446744073709551615))\<rparr>"
  using assms
  by (simp add: report_def State_ctor_def scalar_Accumulator_def scalar_divide_def
      sqrt_operator_def c_sqrt_def size_t_max)

theorem zero_iterations_report_witness:
  "report scalar_Accumulator ''b'' (State_ctor scalar_Accumulator 0) =
     \<lparr>report_name = ''b'', report_iterations = 0, report_mean = Some 0,
      report_standard_deviation = Some 0\<rparr>"
  using zero_iterations_report [of "State_ctor scalar_Accumulator 0" 0 "''b''"]
  by (simp add: State_ctor_def scalar_Accumulator_def)

text \<open>
  C5, as stated, fails: after the single pass of a State of 1 iteration the standard
  deviation reported is the result of dividing 0 by \<^verbatim>\<open>iterations_ - 1\<close> = 0, which is no
  number.
\<close>

theorem one_iteration_standard_deviation_undefined:
  "report_standard_deviation
     (report scalar_Accumulator ''b''
        (fst (for_each_iteration scalar_Accumulator (\<lambda>k. 3 * real k) (\<lambda>k. EndOfBody)
               (State_ctor scalar_Accumulator 1) 0)))
   = None"
proof -
  have "for_each_iteration scalar_Accumulator (\<lambda>k. 3 * real k) (\<lambda>k. EndOfBody)
          (State_ctor scalar_Accumulator 1) 0
          = (update scalar_Accumulator (State_ctor scalar_Accumulator 1)
               (3 * real (0 + 1) - 3 * real 0), 0 + 2)"
    by (rule for_each_iteration_once) simp
  then show ?thesis
    by (simp add: report_def update_def Let_def State_ctor_def
        scalar_Accumulator_def scalar_minus_def scalar_plus_def scalar_divide_def
        multiply_operator_def scalar_times_def sqrt_operator_def c_sqrt_def)
qed

text \<open>
  C5, amended. For a State of 1 iteration the loop is one pass, whichever way the body
  leaves it; the report carries the count 1, the single elapsed duration as mean, and as
  standard deviation the result of the division by zero (NaN for a \<^verbatim>\<open>double\<close>), which
  \<^verbatim>\<open>report\<close> computes with no special case.
\<close>

theorem one_iteration_report:
  "report scalar_Accumulator nm
     (fst (for_each_iteration scalar_Accumulator clock body (State_ctor scalar_Accumulator 1) c))
   = \<lparr>report_name = nm, report_iterations = 1, report_mean = Some (clock (c + 1) - clock c),
      report_standard_deviation = None\<rparr>"
proof -
  have "for_each_iteration scalar_Accumulator clock body (State_ctor scalar_Accumulator 1) c
          = (update scalar_Accumulator (State_ctor scalar_Accumulator 1) (clock (c + 1) - clock c),
             c + 2)"
    by (rule for_each_iteration_once) simp
  then show ?thesis
    by (simp add: report_def update_def Let_def State_ctor_def
        scalar_Accumulator_def scalar_minus_def scalar_plus_def scalar_divide_def
        multiply_operator_def scalar_times_def sqrt_operator_def c_sqrt_def)
qed

section \<open>The standard deviation reported\<close>

text \<open>How the loop goes on, and how it is left.\<close>

lemma range_for_continue:
  assumes "\<not> leaves_loop (body (timers_created r))"
    and "\<not> State_done (state (iteration_scope A clock r))"
  shows "range_for A clock body Iterator_this r
           = range_for A clock body Iterator_this (iteration_scope A clock r)"
  using assms by (subst range_for_this) (simp add: Let_def)

lemma range_for_leave:
  assumes "leaves_loop (body (timers_created r))"
  shows "range_for A clock body Iterator_this r = iteration_scope A clock r"
  using assms by (subst range_for_this) (simp add: Let_def)

lemma State_done_fold:
  assumes "k < unat n"
  shows "\<not> State_done (foldl (update A) (State_ctor A n) (samples clock c k))"
proof -
  have "k < 2 ^ 64" using assms unat_size_t_less [of n] by simp
  then have "unat (iteration' (foldl (update A) (State_ctor A n) (samples clock c k))) = k"
    by (simp add: foldl_update_iteration State_ctor_def samples_def unat_of_nat_size_t)
  then show ?thesis
    using assms
    by (simp add: State_done_def foldl_update_iterations State_ctor_def word_le_nat_alt)
qed

text \<open>A body that leaves the loop in pass \<open>b\<close>, before the count is reached.\<close>

lemma range_for_leaves_early:
  assumes "\<forall>j<b. \<not> leaves_loop (body j)" and "leaves_loop (body b)" and "b < unat n"
    and "k \<le> b"
  shows "range_for A clock body Iterator_this
           ((iteration_scope A clock ^^ k) (start_run (State_ctor A n) c))
         = (iteration_scope A clock ^^ Suc b) (start_run (State_ctor A n) c)"
  using assms(4)
proof (induction "b - k" arbitrary: k)
  case 0
  then have k: "k = b" by simp
  let ?r = "(iteration_scope A clock ^^ b) (start_run (State_ctor A n) c)"
  have "timers_created ?r = b" by (simp add: funpow_start_run)
  then have "range_for A clock body Iterator_this ?r = iteration_scope A clock ?r"
    using assms(2) by (intro range_for_leave) simp
  then show ?case by (simp add: k)
next
  case (Suc m)
  then have lt: "k < b" by simp
  let ?r = "(iteration_scope A clock ^^ k) (start_run (State_ctor A n) c)"
  have c: "timers_created ?r = k" by (simp add: funpow_start_run)
  have next_r: "iteration_scope A clock ?r
      = (iteration_scope A clock ^^ Suc k) (start_run (State_ctor A n) c)"
    by simp
  have "state ((iteration_scope A clock ^^ Suc k) (start_run (State_ctor A n) c))
          = foldl (update A) (State_ctor A n) (samples clock c (Suc k))"
    unfolding funpow_start_run by simp
  moreover have "Suc k < unat n" using lt assms(3) by simp
  ultimately have "\<not> State_done (state (iteration_scope A clock ?r))"
    unfolding next_r by (simp only: State_done_fold not_False_eq_True)
  moreover have "\<not> leaves_loop (body (timers_created ?r))"
    using assms(1) lt by (simp add: c)
  ultimately have "range_for A clock body Iterator_this ?r
      = range_for A clock body Iterator_this (iteration_scope A clock ?r)"
    by (intro range_for_continue)
  also have "\<dots> = (iteration_scope A clock ^^ Suc b) (start_run (State_ctor A n) c)"
    unfolding next_r using Suc lt by (intro Suc.hyps(1)) simp_all
  finally show ?case .
qed

text \<open>
  C7, as stated, fails: \<^verbatim>\<open>report\<close> divides by the target count \<^verbatim>\<open>iterations_\<close> minus
  one, not by the number of samples accumulated minus one. On a State constructed for 5
  iterations, with a clock that reads 0, 1, 4, 9, ... and a body that leaves by
  \<^verbatim>\<open>break\<close> in its third pass, three samples 1, 5, 9 are accumulated, their sum of
  squared differences is 32, and the standard deviation reported is the square root of
  32 / 4, where the claim has the square root of 32 / 2.
\<close>

theorem early_break_divides_by_target:
  "timers_released
     (range_for scalar_Accumulator (\<lambda>k. real (k * k))
        (\<lambda>k. if k = 2 then Break else EndOfBody) State_begin
        (start_run (State_ctor scalar_Accumulator 5) 0)) = 3
   \<and> squared_differences' (state
     (range_for scalar_Accumulator (\<lambda>k. real (k * k))
        (\<lambda>k. if k = 2 then Break else EndOfBody) State_begin
        (start_run (State_ctor scalar_Accumulator 5) 0))) = Some 32
   \<and> report_standard_deviation (report scalar_Accumulator ''b'' (state
     (range_for scalar_Accumulator (\<lambda>k. real (k * k))
        (\<lambda>k. if k = 2 then Break else EndOfBody) State_begin
        (start_run (State_ctor scalar_Accumulator 5) 0)))) = Some (sqrt 8)
   \<and> sqrt_operator (scalar_divide (Some 32) (3 - 1)) = Some 4
   \<and> sqrt 8 \<noteq> (4 :: real)"
proof -
  let ?clock = "\<lambda>k. real (k * k)" and ?body = "\<lambda>k :: nat. if k = 2 then Break else EndOfBody"
  let ?r = "range_for scalar_Accumulator ?clock ?body State_begin
        (start_run (State_ctor scalar_Accumulator 5) 0)"
  have u: "unat (5 :: size_t) = 5" by simp
  have sm: "samples ?clock 0 (Suc 2) = [1, 5, 9]"
    by (simp add: samples_def numeral_2_eq_2)
  have "range_for scalar_Accumulator ?clock ?body Iterator_this
          ((iteration_scope scalar_Accumulator ?clock ^^ 0)
             (start_run (State_ctor scalar_Accumulator 5) 0))
        = (iteration_scope scalar_Accumulator ?clock ^^ Suc 2)
             (start_run (State_ctor scalar_Accumulator 5) 0)"
    by (rule range_for_leaves_early) (simp_all add: u)
  then have "?r = (iteration_scope scalar_Accumulator ?clock ^^ Suc 2)
             (start_run (State_ctor scalar_Accumulator 5) 0)"
    by (simp only: funpow_0 State_begin_def)
  then have r: "?r = \<lparr>state = foldl (update scalar_Accumulator) (State_ctor scalar_Accumulator 5)
                        [1, 5, 9],
                     now_calls = 0 + 2 * Suc 2, timers_created = Suc 2, timers_released = Suc 2\<rparr>"
    by (simp only: funpow_start_run sm)
  have st: "foldl (update scalar_Accumulator) (State_ctor scalar_Accumulator 5) [1, 5, 9]
      = \<lparr>iterations' = 5, iteration' = 3, mean' = Some 5, squared_differences' = Some 32\<rparr>"
    using welford_invariant [of "[1, 5, 9]" 5] by (simp add: power2_eq_square)
  have s16: "sqrt 16 = (4 :: real)"
    by (rule real_sqrt_unique) simp_all
  have ne: "sqrt 8 \<noteq> (4 :: real)"
  proof
    assume "sqrt 8 = (4 :: real)"
    then have "(sqrt 8)\<^sup>2 = (4 :: real)\<^sup>2" by simp
    then show False by simp
  qed
  have u4: "unat (4 :: size_t) = 4" and u2: "unat (2 :: size_t) = 2" by simp_all
  show ?thesis
    unfolding r st
    by (simp add: report_def scalar_Accumulator_def sqrt_operator_def c_sqrt_def
        scalar_divide_def s16 ne)
qed

text \<open>
  C7, amended. The standard deviation passed to the Reporter is the Accumulator constructed
  from the square root of the sum of squared differences divided by \<^verbatim>\<open>iterations_ - 1\<close>,
  the target count of the State minus one, in \<^verbatim>\<open>size_t\<close>. After a loop run to its end
  over a State constructed for \<open>n \<noteq> 0\<close> iterations the number of samples accumulated is
  \<open>n\<close>, so that the divisor is then that number minus one.
\<close>

theorem report_standard_deviation_bessel:
  fixes A :: "'a Accumulator" and clock :: clock and body :: body and n :: size_t and c :: nat
    and s :: "'a State"
  assumes "n \<noteq> 0" and "\<forall>j. \<not> leaves_loop (body j)"
  defines "r \<equiv> range_for A clock body State_begin (start_run (State_ctor A n) c)"
  shows "report_standard_deviation (report A nm s) =
           acc_construct A
             (acc_sqrt A (acc_divide A (squared_differences' s) (iterations' s - 1)))
       \<and> timers_released r = unat n
       \<and> iterations' (state r) = of_nat (timers_released r)
       \<and> report_standard_deviation (report A nm (state r)) =
           acc_construct A
             (acc_sqrt A
               (acc_divide A (squared_differences' (state r)) (of_nat (timers_released r) - 1)))"
proof -
  have r: "r = (iteration_scope A clock ^^ unat n) (start_run (State_ctor A n) c)"
    unfolding r_def using assms(1,2) by (rule range_for_complete(1))
  have "timers_released r = unat n"
    unfolding r funpow_start_run by simp
  moreover have "iterations' (state r) = n"
    unfolding r funpow_start_run by (simp add: foldl_update_iterations State_ctor_def)
  ultimately show ?thesis
    by (simp add: report_def)
qed

theorem report_standard_deviation_bessel_witness:
  "report_standard_deviation
     (report scalar_Accumulator ''b''
        (state (range_for scalar_Accumulator (\<lambda>k. real (k * k)) (\<lambda>k. EndOfBody) State_begin
                  (start_run (State_ctor scalar_Accumulator 2) 0))))
   = Some (sqrt 8)"
proof -
  let ?r = "range_for scalar_Accumulator (\<lambda>k. real (k * k)) (\<lambda>k. EndOfBody) State_begin
                  (start_run (State_ctor scalar_Accumulator 2) 0)"
  have u: "unat (2 :: size_t) = 2" by simp
  have sm: "samples (\<lambda>k. real (k * k)) 0 2 = [1, 5]"
    by (simp add: samples_def numeral_2_eq_2)
  have "?r = (iteration_scope scalar_Accumulator (\<lambda>k. real (k * k)) ^^ unat (2 :: size_t))
               (start_run (State_ctor scalar_Accumulator 2) 0)"
    by (rule range_for_complete(1)) simp_all
  then have s: "state ?r
      = foldl (update scalar_Accumulator) (State_ctor scalar_Accumulator 2) [1, 5]"
    unfolding u funpow_start_run sm by simp
  have M2: "squared_differences' (state ?r) = Some 8"
    unfolding s using welford_invariant [of "[1, 5]" 2] by (simp add: power2_eq_square)
  have "(2 :: size_t) \<noteq> 0" and "\<forall>j. \<not> leaves_loop ((\<lambda>k. EndOfBody) j)" by simp_all
  note bessel = report_standard_deviation_bessel [OF this,
      where A = scalar_Accumulator and clock = "\<lambda>k. real (k * k)" and c = 0
        and nm = "''b''" and s = "state ?r"]
  from bessel have t: "timers_released ?r = unat (2 :: size_t)"
    by blast
  from bessel
  have e: "report_standard_deviation (report scalar_Accumulator ''b'' (state ?r)) =
           acc_construct scalar_Accumulator
             (acc_sqrt scalar_Accumulator
               (acc_divide scalar_Accumulator (squared_differences' (state ?r))
                  (of_nat (timers_released ?r) - 1)))"
    by blast
  have "report_standard_deviation (report scalar_Accumulator ''b'' (state ?r)) =
           acc_construct scalar_Accumulator
             (acc_sqrt scalar_Accumulator
               (acc_divide scalar_Accumulator (Some 8) (of_nat 2 - 1)))"
    unfolding e t u M2 ..
  also have "\<dots> = Some (sqrt 8)"
    by (simp add: scalar_Accumulator_def sqrt_operator_def c_sqrt_def scalar_divide_def)
  finally show ?thesis .
qed

section \<open>The registry and runBenchmarks\<close>

lemma EMB_MAKE_BENCHMARK_eq:
  "EMB_MAKE_BENCHMARK nm f n b =
     b\<lparr>evaluators := evaluators b @
         [\<lparr>name = nm, func = f, iterations = registered_iterations (default_iterations' b) (nm, f, n)\<rparr>]\<rparr>"
  by (simp add: EMB_MAKE_BENCHMARK_def registerBenchmark_def registerBenchmark_iterations_def
      registered_iterations_def split: option.split)

lemma register_all_eq:
  "register_all regs b =
     b\<lparr>evaluators := evaluators b @
         map (\<lambda>reg. \<lparr>name = fst reg, func = fst (snd reg),
                     iterations = registered_iterations (default_iterations' b) reg\<rparr>) regs\<rparr>"
  unfolding register_all_def
proof (induction regs arbitrary: b)
  case Nil
  show ?case by simp
next
  case (Cons reg regs)
  obtain nm f n where reg: "reg = (nm, f, n)" by (cases reg)
  let ?G = "\<lambda>b (nm, f, n). EMB_MAKE_BENCHMARK nm f n b"
  let ?b = "EMB_MAKE_BENCHMARK nm f n b"
  have "foldl ?G b (reg # regs) = foldl ?G ?b regs"
    by (simp add: reg)
  also have "\<dots> = ?b\<lparr>evaluators := evaluators ?b @
         map (\<lambda>reg. \<lparr>name = fst reg, func = fst (snd reg),
                     iterations = registered_iterations (default_iterations' ?b) reg\<rparr>) regs\<rparr>"
    by (rule Cons)
  also have "\<dots> = b\<lparr>evaluators := evaluators b @
         map (\<lambda>reg. \<lparr>name = fst reg, func = fst (snd reg),
                     iterations = registered_iterations (default_iterations' b) reg\<rparr>) (reg # regs)\<rparr>"
    by (simp add: EMB_MAKE_BENCHMARK_eq reg)
  finally show ?case .
qed

lemma run_evaluator_eq:
  "run_evaluator A e w =
     \<lparr>timer_calls = snd (func e (State_ctor A (iterations e)) (timer_calls w)),
      reports = reports w @
        [report A (name e) (fst (func e (State_ctor A (iterations e)) (timer_calls w)))]\<rparr>"
  by (simp add: run_evaluator_def Let_def split_beta)

lemma for_evaluators_append:
  "for_evaluators A (es @ es') w = for_evaluators A es' (for_evaluators A es w)"
  by (induction es arbitrary: w) simp_all

lemma for_evaluators_snoc:
  "for_evaluators A (es @ [e]) w = run_evaluator A e (for_evaluators A es w)"
  by (simp add: for_evaluators_append)

lemma for_evaluators_take_reports:
  "reports (for_evaluators A es w) =
     reports w @
       map (\<lambda>i. report A (name (es ! i))
                  (fst (func (es ! i) (State_ctor A (iterations (es ! i)))
                          (timer_calls (for_evaluators A (take i es) w)))))
           [0..<length es]"
proof (induction es rule: rev_induct)
  case Nil
  show ?case by simp
next
  case (snoc e es)
  have "map (\<lambda>i. report A (name ((es @ [e]) ! i))
                  (fst (func ((es @ [e]) ! i) (State_ctor A (iterations ((es @ [e]) ! i)))
                          (timer_calls (for_evaluators A (take i (es @ [e])) w)))))
           [0..<length es]
        = map (\<lambda>i. report A (name (es ! i))
                  (fst (func (es ! i) (State_ctor A (iterations (es ! i)))
                          (timer_calls (for_evaluators A (take i es) w)))))
           [0..<length es]"
    by (rule map_cong) (simp_all add: nth_append)
  then show ?case
    by (simp add: for_evaluators_snoc run_evaluator_eq snoc)
qed

lemma evaluators_register_all:
  "evaluators (register_all regs (Benchmarker_ctor d :: 'a Benchmarker)) =
     map (\<lambda>reg. \<lparr>name = fst reg, func = fst (snd reg),
                 iterations = registered_iterations
                   (default_iterations' (Benchmarker_ctor d :: 'a Benchmarker)) reg\<rparr>) regs"
  by (simp add: register_all_eq Benchmarker_ctor_def)

text \<open>
  C3. Register \<open>N\<close> benchmarks, in order, on a new harness, and run them all: the
  Reporter receives exactly \<open>N\<close> calls more, in the order of the registrations, each
  with the name registered and the iteration count registered, or the harness's default
  where the registration gave none. Call number \<open>i\<close> reports the State as function
  \<open>i\<close> left it, having been given a State newly constructed for its count once the
  benchmarks registered before it had been run and reported. The functions return, and
  they cannot assign to the constant member \<^verbatim>\<open>iterations_\<close>.
\<close>

theorem runBenchmarks_reports_each_once_in_order:
  fixes regs :: "'a registration list" and d :: "size_t option"
    and A :: "'a Accumulator" and w :: "'a World"
  assumes "\<forall>reg\<in>set regs. \<forall>s c. iterations' (fst (fst (snd reg) s c)) = iterations' s"
  defines "d0 \<equiv> default_iterations' (Benchmarker_ctor d :: 'a Benchmarker)"
  defines "before \<equiv> \<lambda>i. runBenchmarks A (register_all (take i regs) (Benchmarker_ctor d)) w"
  shows "\<exists>new. reports (runBenchmarks A (register_all regs (Benchmarker_ctor d)) w)
                 = reports w @ new
           \<and> length new = length regs
           \<and> map report_name new = map fst regs
           \<and> map report_iterations new = map (registered_iterations d0) regs
           \<and> (\<forall>i<length regs.
                 new ! i = report A (fst (regs ! i))
                   (fst (fst (snd (regs ! i))
                          (State_ctor A (registered_iterations d0 (regs ! i)))
                          (timer_calls (before i)))))"
proof -
  let ?mk = "\<lambda>reg :: 'a registration. \<lparr>name = fst reg, func = fst (snd reg),
                 iterations = registered_iterations d0 reg\<rparr>"
  let ?R = "\<lambda>i. report A (fst (regs ! i))
                   (fst (fst (snd (regs ! i))
                          (State_ctor A (registered_iterations d0 (regs ! i)))
                          (timer_calls (before i))))"
  let ?new = "map ?R [0..<length regs]"
  have before: "before i = for_evaluators A (take i (map ?mk regs)) w" for i
    by (simp add: before_def runBenchmarks_def evaluators_register_all d0_def take_map)
  have "reports (runBenchmarks A (register_all regs (Benchmarker_ctor d)) w)
          = reports w @ map (\<lambda>i. report A (name (map ?mk regs ! i))
                  (fst (func (map ?mk regs ! i) (State_ctor A (iterations (map ?mk regs ! i)))
                          (timer_calls (for_evaluators A (take i (map ?mk regs)) w)))))
           [0..<length (map ?mk regs)]"
    unfolding runBenchmarks_def evaluators_register_all d0_def [symmetric]
    by (rule for_evaluators_take_reports)
  also have "\<dots> = reports w @ ?new"
    by (simp add: before)
  finally have 1: "reports (runBenchmarks A (register_all regs (Benchmarker_ctor d)) w)
                 = reports w @ ?new" .
  have 2: "length ?new = length regs" by simp
  have "map report_name ?new = map (\<lambda>i. fst (regs ! i)) [0..<length regs]"
    by (simp add: report_def)
  also have "\<dots> = map fst (map (\<lambda>i. regs ! i) [0..<length regs])"
    by (simp add: comp_def)
  finally have 3: "map report_name ?new = map fst regs"
    by (simp add: map_nth)
  have "map report_iterations ?new = map (\<lambda>i. registered_iterations d0 (regs ! i)) [0..<length regs]"
    using assms(1) by (simp add: report_def State_ctor_def)
  also have "\<dots> = map (registered_iterations d0) (map (\<lambda>i. regs ! i) [0..<length regs])"
    by (simp add: comp_def)
  finally have 4: "map report_iterations ?new = map (registered_iterations d0) regs"
    by (simp add: map_nth)
  have 5: "\<forall>i<length regs. ?new ! i = ?R i" by simp
  from 1 2 3 4 5 show ?thesis by (intro exI [of _ ?new]) blast
qed

theorem runBenchmarks_reports_each_once_in_order_witness:
  "map (\<lambda>r. (report_name r, report_iterations r))
     (reports (runBenchmarks scalar_Accumulator
        (register_all
           [(''benchmark_empty'',
               for_each_iteration scalar_Accumulator real (\<lambda>k. EndOfBody), None),
            (''benchmark_loop'',
               for_each_iteration scalar_Accumulator real (\<lambda>k. EndOfBody), Some 110)]
           (Benchmarker_ctor (Some 100)))
        \<lparr>timer_calls = 0, reports = []\<rparr>))
   = [(''benchmark_empty'', 100), (''benchmark_loop'', 110)]"
proof -
  let ?regs = "[(''benchmark_empty'',
                   for_each_iteration scalar_Accumulator real (\<lambda>k. EndOfBody), None),
                (''benchmark_loop'',
                   for_each_iteration scalar_Accumulator real (\<lambda>k. EndOfBody), Some 110)]
               :: scalar registration list"
  have "\<forall>reg\<in>set ?regs. \<forall>s c. iterations' (fst (fst (snd reg) s c)) = iterations' s"
    by (simp add: for_each_iteration_iterations)
  from runBenchmarks_reports_each_once_in_order [OF this,
      where A = scalar_Accumulator and d = "Some 100"
        and w = "\<lparr>timer_calls = 0, reports = []\<rparr>"]
  obtain new where new: "reports (runBenchmarks scalar_Accumulator
        (register_all ?regs (Benchmarker_ctor (Some 100)))
        \<lparr>timer_calls = 0, reports = []\<rparr>) = new"
    "map report_name new = [''benchmark_empty'', ''benchmark_loop'']"
    "map report_iterations new = [100, 110]"
    by (auto simp add: registered_iterations_def Benchmarker_ctor_def)
  from new(2) obtain r1 r2 where r: "new = [r1, r2]" by auto
  show ?thesis
    using new(2,3) unfolding new(1) r by simp
qed

text \<open>
  C10. On a harness constructed with no argument the default count is 1000, whatever has
  been registered since: a registration without a count is stored with 1000; and the
  benchmark registered last without a count, a function that is one range-for loop whose
  body never leaves it, is run for 1000 passes (2000 readings of the clock) on a State
  constructed for 1000 iterations and reported with the count 1000.
\<close>

theorem default_iterations_1000:
  fixes regs :: "'a registration list" and A :: "'a Accumulator" and clock :: clock
    and body :: body and nm :: string and w :: "'a World"
  assumes "\<forall>j. \<not> leaves_loop (body j)"
  defines "b \<equiv> register_all regs (Benchmarker_ctor None)"
  defines "e \<equiv> last (evaluators (registerBenchmark nm (for_each_iteration A clock body) b))"
  shows "default_iterations' b = 1000
       \<and> map iterations (evaluators b) = map (registered_iterations 1000) regs
       \<and> e = \<lparr>name = nm, func = for_each_iteration A clock body, iterations = 1000\<rparr>
       \<and> run_evaluator A e w =
           \<lparr>timer_calls = timer_calls w + 2 * 1000,
            reports = reports w @
              [report A nm
                 (foldl (update A) (State_ctor A 1000) (samples clock (timer_calls w) 1000))]\<rparr>
       \<and> report_iterations (last (reports (run_evaluator A e w))) = 1000"
proof -
  have d: "default_iterations' b = 1000"
    by (simp add: b_def register_all_eq Benchmarker_ctor_def)
  have stored: "map iterations (evaluators b) = map (registered_iterations 1000) regs"
    by (simp add: b_def register_all_eq Benchmarker_ctor_def comp_def)
  have e: "e = \<lparr>name = nm, func = for_each_iteration A clock body, iterations = 1000\<rparr>"
    by (simp add: e_def registerBenchmark_def d)
  have u: "unat (1000 :: size_t) = 1000" by simp
  have "for_each_iteration A clock body (State_ctor A 1000) (timer_calls w) =
          (foldl (update A) (State_ctor A 1000) (samples clock (timer_calls w) (unat (1000 :: size_t))),
           timer_calls w + 2 * unat (1000 :: size_t))"
    using assms(1) by (intro for_each_iteration_complete) simp_all
  then have run: "run_evaluator A e w =
           \<lparr>timer_calls = timer_calls w + 2 * 1000,
            reports = reports w @
              [report A nm
                 (foldl (update A) (State_ctor A 1000) (samples clock (timer_calls w) 1000))]\<rparr>"
    unfolding u by (simp add: run_evaluator_eq e)
  have "report_iterations (last (reports (run_evaluator A e w))) = 1000"
    unfolding run by (simp add: report_def foldl_update_iterations State_ctor_def)
  with d stored e run show ?thesis by blast
qed

theorem default_iterations_1000_witness:
  "run_evaluator scalar_Accumulator
     (last (evaluators (registerBenchmark ''benchmark_empty''
        (for_each_iteration scalar_Accumulator real (\<lambda>k. EndOfBody))
        (register_all [] (Benchmarker_ctor None)))))
     \<lparr>timer_calls = 0, reports = []\<rparr>
   = \<lparr>timer_calls = 2000,
      reports = [report scalar_Accumulator ''benchmark_empty''
                  (foldl (update scalar_Accumulator) (State_ctor scalar_Accumulator 1000)
                     (samples real 0 1000))]\<rparr>"
proof -
  let ?w = "\<lparr>timer_calls = 0, reports = []\<rparr> :: scalar World"
  let ?e = "last (evaluators (registerBenchmark ''benchmark_empty''
        (for_each_iteration scalar_Accumulator real (\<lambda>k. EndOfBody))
        (register_all [] (Benchmarker_ctor None))))"
  have "\<forall>j. \<not> leaves_loop ((\<lambda>k. EndOfBody) j)" by simp
  from default_iterations_1000 [OF this, of "[]" "''benchmark_empty''" scalar_Accumulator real ?w]
  have "run_evaluator scalar_Accumulator ?e ?w =
           \<lparr>timer_calls = timer_calls ?w + 2 * 1000,
            reports = reports ?w @
              [report scalar_Accumulator ''benchmark_empty''
                 (foldl (update scalar_Accumulator) (State_ctor scalar_Accumulator 1000)
                    (samples real (timer_calls ?w) 1000))]\<rparr>"
    by blast
  then show ?thesis by simp
qed

section \<open>The two ways to multiply and to take the square root\<close>

lemma State_ctor_count:
  "State_count (State_ctor duration_Accumulator n) = State_ctor scalar_Accumulator n"
  by (simp add: State_count_def State_ctor_def duration_Accumulator_def scalar_Accumulator_def)

lemma update_count:
  "State_count (update duration_Accumulator s d) = update scalar_Accumulator (State_count s) d"
  by (simp add: State_count_def update_def Let_def duration_Accumulator_def
      scalar_Accumulator_def duration_minus_def duration_plus_def duration_divide_def
      multiply_count_def multiply_operator_def)

lemma report_count:
  "Report_count (report duration_Accumulator nm s) = report scalar_Accumulator nm (State_count s)"
  by (simp add: Report_count_def report_def State_count_def duration_Accumulator_def
      scalar_Accumulator_def duration_divide_def sqrt_count_def sqrt_operator_def)

lemma iteration_scope_count:
  "Run_count (iteration_scope duration_Accumulator clock r)
     = iteration_scope scalar_Accumulator clock (Run_count r)"
  by (simp add: iteration_scope_eq Run_count_def update_count)

lemma State_done_count: "State_done (State_count s) = State_done s"
  by (simp add: State_done_def State_count_def)

lemma range_for_count:
  "Run_count (range_for duration_Accumulator clock body it r)
     = range_for scalar_Accumulator clock body it (Run_count r)"
proof (induction A \<equiv> duration_Accumulator clock body it r rule: range_for.induct)
  case (1 clock body it r)
  let ?r' = "iteration_scope duration_Accumulator clock r"
  have c: "timers_created (Run_count r) = timers_created r"
    and s: "state (Run_count ?r') = State_count (state ?r')"
    by (simp_all add: Run_count_def)
  show ?case
  proof (cases "operator_neq it State_end \<and> \<not> leaves_loop (body (timers_created r))")
    case True
    with 1 have "Run_count (range_for duration_Accumulator clock body
                    (operator_inc (state ?r') it) ?r')
        = range_for scalar_Accumulator clock body (operator_inc (state ?r') it) (Run_count ?r')"
      by simp
    moreover have "operator_inc (State_count (state ?r')) it = operator_inc (state ?r') it"
      by (simp add: operator_inc_def State_done_count)
    ultimately show ?thesis
      using True
      by (subst range_for.simps, subst (2) range_for.simps)
        (simp add: Let_def c iteration_scope_count [symmetric] s)
  next
    case False
    then show ?thesis
      by (subst range_for.simps, subst (2) range_for.simps)
        (auto simp add: Let_def c iteration_scope_count)
  qed
qed

text \<open>
  C8. Run the same loop (same clock, same body, same count) with the scalar Accumulator,
  which multiplies and takes square roots by its own operators, and with the duration-like
  wrapper, which does both through \<^verbatim>\<open>count()\<close>: the mean and the standard deviation
  reported have the same magnitudes, the counts reported are the same, and the clock has
  been read as often.
\<close>

theorem accumulator_paths_agree:
  fixes clock :: clock and body :: body and n :: size_t and c :: nat and nm :: string
  defines "run_d \<equiv> for_each_iteration duration_Accumulator clock body
                      (State_ctor duration_Accumulator n) c"
  defines "run_s \<equiv> for_each_iteration scalar_Accumulator clock body
                      (State_ctor scalar_Accumulator n) c"
  shows "count (report_mean (report duration_Accumulator nm (fst run_d)))
           = report_mean (report scalar_Accumulator nm (fst run_s))
       \<and> count (report_standard_deviation (report duration_Accumulator nm (fst run_d)))
           = report_standard_deviation (report scalar_Accumulator nm (fst run_s))
       \<and> report_iterations (report duration_Accumulator nm (fst run_d))
           = report_iterations (report scalar_Accumulator nm (fst run_s))
       \<and> snd run_d = snd run_s"
proof -
  let ?rd = "range_for duration_Accumulator clock body State_begin
               (start_run (State_ctor duration_Accumulator n) c)"
  let ?rs = "range_for scalar_Accumulator clock body State_begin
               (start_run (State_ctor scalar_Accumulator n) c)"
  have "Run_count (start_run (State_ctor duration_Accumulator n) c)
          = start_run (State_ctor scalar_Accumulator n) c"
    by (simp add: Run_count_def start_run_def State_ctor_count)
  then have runs: "Run_count ?rd = ?rs"
    by (simp add: range_for_count)
  have st: "State_count (state ?rd) = state ?rs"
    using arg_cong [OF runs, of state] by (simp add: Run_count_def)
  have calls: "now_calls ?rd = now_calls ?rs"
    using arg_cong [OF runs, of now_calls] by (simp add: Run_count_def)
  have "Report_count (report duration_Accumulator nm (state ?rd))
          = report scalar_Accumulator nm (state ?rs)"
    by (simp add: report_count st)
  then have rep: "Report_count (report duration_Accumulator nm (state ?rd))
          = report scalar_Accumulator nm (state ?rs)" .
  have "count (report_mean (report duration_Accumulator nm (state ?rd)))
           = report_mean (report scalar_Accumulator nm (state ?rs))"
    using arg_cong [OF rep, of report_mean] by (simp add: Report_count_def)
  moreover have "count (report_standard_deviation (report duration_Accumulator nm (state ?rd)))
           = report_standard_deviation (report scalar_Accumulator nm (state ?rs))"
    using arg_cong [OF rep, of report_standard_deviation] by (simp add: Report_count_def)
  moreover have "report_iterations (report duration_Accumulator nm (state ?rd))
           = report_iterations (report scalar_Accumulator nm (state ?rs))"
    using arg_cong [OF rep, of report_iterations] by (simp add: Report_count_def)
  ultimately show ?thesis
    using calls by (simp add: run_d_def run_s_def for_each_iteration_def Let_def)
qed

end
